theory Spec2Isabelle
  imports Main "HOL-Library.Sublist"
begin

text \<open>
  An embedding of the LearnWorlds client: the token authority \<open>OAuth2Client\<close> of
  \<open>oauth.ts\<close> and the request pipeline of \<open>LearnWorldsClient\<close> in \<open>client.ts\<close> (the two
  interceptors, \<open>handleError\<close>, \<open>makeRequest\<close>). Every asynchronous method is a function
  from the state before the call to its outcome and the state after it; a rejected
  promise is an \<open>Inl\<close>. One operation runs at a time. The remote servers and the
  \<open>onTokenRefresh\<close> callback are parameters, so every theorem holds whatever they answer.
\<close>

section \<open>Data model (types.ts)\<close>

text \<open>
  JavaScript strings are modelled as \<open>string\<close>, optional fields as \<open>option\<close>
  (\<open>None\<close> is \<open>undefined\<close>), JSON payloads the library never inspects as an opaque
  \<open>json\<close> text. The source tests optional strings by truthiness (\<open>!x\<close>, \<open>x || y\<close>,
  \<open>if (x)\<close>): \<open>undefined\<close> and the empty string are both falsy.
\<close>

type_synonym json = string

fun truthy :: "string option \<Rightarrow> bool" where
  "truthy None = False"
| "truthy (Some t) = (t \<noteq> [])"

text \<open>\<open>a || b\<close> on optional strings.\<close>

definition or_else :: "string option \<Rightarrow> string option \<Rightarrow> string option" where
  "or_else a b = (if truthy a then a else b)"

record TokenResponse =
  access_token :: string
  token_type :: string
  expires_in :: int
  refresh_token :: "string option"
  scope :: "string option"

text \<open>
  The callback \<open>onTokenRefresh\<close> is caller code: it either completes or throws. It is
  modelled as not touching the client's credentials.
\<close>

datatype callback_outcome = Completed | Threw string

record LearnWorldsConfig =
  schoolDomain :: string
  clientId :: string
  clientSecret :: string
  apiHost :: string
  redirectUri :: "string option"
  config_accessToken :: "string option"
  config_refreshToken :: "string option"
  onTokenRefresh :: "(TokenResponse \<Rightarrow> callback_outcome) option"

record AuthorizationCodeRequest =
  request_code :: string
  request_redirectUri :: string

record ResourceOwnerPasswordRequest =
  username :: string
  password :: string
  request_scope :: "string option"

record ApiResponse =
  success :: bool
  api_data :: json
  api_message :: "string option"
  errors :: "string list option"

text \<open>The body of an error response: its \<open>message\<close> field, if it has one, and the rest.\<close>

record ErrorBody =
  body_message :: "string option"
  body_raw :: json

record 'a AxiosResponse =
  response_status :: int
  response_data :: 'a

text \<open>
  An \<open>AxiosError\<close>: its message, the response when one was received, and whether
  \<open>error.request\<close> is set (the request was sent).
\<close>

record AxiosError =
  error_message :: string
  response :: "ErrorBody option AxiosResponse option"
  request :: bool

datatype error_details = Body ErrorBody | Errors "string list"

datatype http_method = GET | POST | PUT | PATCH | DELETE

text \<open>
  A request configuration: what \<open>makeRequest\<close> passes, the \<open>Authorization\<close> header, and
  the \<open>_retry\<close> mark of the response interceptor (absent is \<open>False\<close>).
\<close>

record RequestConfig =
  request_method :: http_method
  url :: string
  data :: "json option"
  params :: "json option"
  Authorization :: "string option"
  retry :: bool

record LearnWorldsError =
  name :: string
  status :: "int option"
  code :: string
  message :: string
  details :: "error_details option"

section \<open>URLSearchParams\<close>

text \<open>
  \<open>new URLSearchParams({...})\<close> keeps its entries in insertion order and \<open>append\<close>
  adds one at the end: an association list. \<open>toString()\<close> is the
  application/x-www-form-urlencoded serializer: each name and value byte by byte, the
  bytes \<open>* - . _\<close>, digits and ASCII letters as they are, a space as \<open>+\<close>, any other byte
  as \<open>%\<close> and two upper-case hexadecimal digits; name and value joined by \<open>=\<close>, entries
  by \<open>&\<close>.
\<close>

definition unreserved :: "char \<Rightarrow> bool" where
  "unreserved c \<longleftrightarrow>
     c \<in> set ''abcdefghijklmnopqrstuvwxyzABCDEFGHIJKLMNOPQRSTUVWXYZ0123456789*-._''"

definition hex_digit :: "nat \<Rightarrow> char" where
  "hex_digit n = ''0123456789ABCDEF'' ! (n mod 16)"

definition encode_byte :: "char \<Rightarrow> string" where
  "encode_byte c =
     (if unreserved c then [c]
      else if c = CHR '' '' then ''+''
      else [CHR ''%'', hex_digit (of_char c div 16), hex_digit (of_char c mod 16)])"

definition urlencode :: "string \<Rightarrow> string" where
  "urlencode s = concat (map encode_byte s)"

fun join_amp :: "string list \<Rightarrow> string" where
  "join_amp [] = []"
| "join_amp [x] = x"
| "join_amp (x # y # ys) = x @ ''&'' @ join_amp (y # ys)"

definition toString :: "(string \<times> string) list \<Rightarrow> string" where
  "toString ps = join_amp (map (\<lambda>(k, v). urlencode k @ ''='' @ urlencode v) ps)"

text \<open>
  \<open>if (scope) params.append('scope', scope)\<close>: the entry is added for a non-empty
  value only.
\<close>

fun append_if :: "(string \<times> string) list \<Rightarrow> string \<Rightarrow> string option \<Rightarrow> (string \<times> string) list" where
  "append_if ps k None = ps"
| "append_if ps k (Some v) = (if v = [] then ps else ps @ [(k, v)])"

section \<open>OAuth2Client (oauth.ts)\<close>

text \<open>
  The client's three private fields, together with what the model needs of the world:
  the clock (\<open>new Date()\<close>, in milliseconds) and the requests made so far on the
  client's HTTP instance, oldest first.
\<close>

record OAuth2Client =
  accessToken :: "string option"
  refreshToken :: "string option"
  tokenExpiresAt :: "int option"
  now :: int
  posts :: "(string \<times> string) list"

text \<open>
  The servers are parameters. The OAuth server answers the \<open>n\<close>-th POST (counted from
  0) at a path with a body, after some milliseconds, with a rejection or with the
  response data; the answer of the revocation endpoint is never read by the client.
  The resource API answers the \<open>n\<close>-th request sent on the gateway's HTTP instance.
  The local calendar is a parameter too: \<open>setSeconds t n\<close> is the time value of a \<open>Date\<close>
  created at \<open>t\<close> after \<open>d.setSeconds(d.getSeconds() + n)\<close>, which works on local time
  and so depends on the time zone and its clock changes.
\<close>

record Servers =
  config :: LearnWorldsConfig
  token_endpoint :: "nat \<Rightarrow> string \<Rightarrow> nat \<times> (AxiosError + TokenResponse)"
  revoke_endpoint :: "nat \<Rightarrow> string \<Rightarrow> nat \<times> (AxiosError + unit)"
  api_endpoint :: "nat \<Rightarrow> RequestConfig \<Rightarrow> nat \<times> (AxiosError + ApiResponse AxiosResponse)"
  setSeconds :: "int \<Rightarrow> int \<Rightarrow> int"

datatype failure =
    NoRefreshToken
  | NoTokenToRevoke
  | NoAccessToken
  | Rejected AxiosError
  | CallbackThrew string

text \<open>The constructor: tokens from the configuration, no expiry.\<close>

definition new_OAuth2Client :: "LearnWorldsConfig \<Rightarrow> int \<Rightarrow> OAuth2Client" where
  "new_OAuth2Client c t =
     \<lparr>accessToken = config_accessToken c, refreshToken = config_refreshToken c,
      tokenExpiresAt = None, now = t, posts = []\<rparr>"

text \<open>\<open>this.http.post(path, body)\<close>: the request is recorded and time passes.\<close>

definition post_token :: "Servers \<Rightarrow> string \<Rightarrow> OAuth2Client \<Rightarrow> (AxiosError + TokenResponse) \<times> OAuth2Client" where
  "post_token e body s =
     (let (elapsed, answer) = token_endpoint e (length (posts s)) body
      in (answer, s\<lparr>now := now s + int elapsed, posts := posts s @ [(''/oauth2/token'', body)]\<rparr>))"

definition post_revoke :: "Servers \<Rightarrow> string \<Rightarrow> OAuth2Client \<Rightarrow> (AxiosError + unit) \<times> OAuth2Client" where
  "post_revoke e body s =
     (let (elapsed, answer) = revoke_endpoint e (length (posts s)) body
      in (answer, s\<lparr>now := now s + int elapsed, posts := posts s @ [(''/oauth2/revoke'', body)]\<rparr>))"

text \<open>
  \<open>handleTokenResponse\<close>. The expiry is a fresh \<open>Date\<close> moved by \<open>expires_in\<close> seconds,
  taken as a whole number; a \<open>Date\<close> pushed out of its range (an invalid date) is not
  modelled.
\<close>

definition handleTokenResponse :: "Servers \<Rightarrow> TokenResponse \<Rightarrow> OAuth2Client \<Rightarrow> (failure + unit) \<times> OAuth2Client" where
  "handleTokenResponse e r s =
     (let s1 = s\<lparr>accessToken := Some (access_token r)\<rparr>;
          s2 = (if truthy (refresh_token r) then s1\<lparr>refreshToken := refresh_token r\<rparr> else s1);
          s3 = (if expires_in r \<noteq> 0
                then s2\<lparr>tokenExpiresAt := Some (setSeconds e (now s2) (expires_in r))\<rparr> else s2)
      in case onTokenRefresh (config e) of
           None \<Rightarrow> (Inr (), s3)
         | Some callback \<Rightarrow>
             (case callback r of
                Completed \<Rightarrow> (Inr (), s3)
              | Threw m \<Rightarrow> (Inl (CallbackThrew m), s3)))"

text \<open>
  The last three lines of each grant method: POST the serialized parameters to
  \<open>/oauth2/token\<close>, install the response, return it.
\<close>

definition request_token :: "Servers \<Rightarrow> (string \<times> string) list \<Rightarrow> OAuth2Client \<Rightarrow> (failure + TokenResponse) \<times> OAuth2Client" where
  "request_token e ps s =
     (case post_token e (toString ps) s of
        (Inl err, s1) \<Rightarrow> (Inl (Rejected err), s1)
      | (Inr r, s1) \<Rightarrow>
          (case handleTokenResponse e r s1 of
             (Inl f, s2) \<Rightarrow> (Inl f, s2)
           | (Inr _, s2) \<Rightarrow> (Inr r, s2)))"

definition exchangeAuthorizationCode :: "Servers \<Rightarrow> AuthorizationCodeRequest \<Rightarrow> OAuth2Client \<Rightarrow> (failure + TokenResponse) \<times> OAuth2Client" where
  "exchangeAuthorizationCode e req s =
     request_token e
       [(''grant_type'', ''authorization_code''),
        (''code'', request_code req),
        (''redirect_uri'', request_redirectUri req),
        (''client_id'', clientId (config e)),
        (''client_secret'', clientSecret (config e))] s"

definition authenticateWithPassword :: "Servers \<Rightarrow> ResourceOwnerPasswordRequest \<Rightarrow> OAuth2Client \<Rightarrow> (failure + TokenResponse) \<times> OAuth2Client" where
  "authenticateWithPassword e req s =
     request_token e
       (append_if
          [(''grant_type'', ''password''),
           (''username'', username req),
           (''password'', password req),
           (''client_id'', clientId (config e)),
           (''client_secret'', clientSecret (config e))]
          ''scope'' (request_scope req)) s"

definition authenticateWithClientCredentials :: "Servers \<Rightarrow> string option \<Rightarrow> OAuth2Client \<Rightarrow> (failure + TokenResponse) \<times> OAuth2Client" where
  "authenticateWithClientCredentials e sc s =
     request_token e
       (append_if
          [(''grant_type'', ''client_credentials''),
           (''client_id'', clientId (config e)),
           (''client_secret'', clientSecret (config e))]
          ''scope'' sc) s"

definition refreshAccessToken :: "Servers \<Rightarrow> OAuth2Client \<Rightarrow> (failure + TokenResponse) \<times> OAuth2Client" where
  "refreshAccessToken e s =
     (case refreshToken s of
        None \<Rightarrow> (Inl NoRefreshToken, s)
      | Some t \<Rightarrow>
          if t = [] then (Inl NoRefreshToken, s)
          else request_token e
                 [(''grant_type'', ''refresh_token''),
                  (''refresh_token'', t),
                  (''client_id'', clientId (config e)),
                  (''client_secret'', clientSecret (config e))] s)"

definition revokeToken :: "Servers \<Rightarrow> string option \<Rightarrow> OAuth2Client \<Rightarrow> (failure + unit) \<times> OAuth2Client" where
  "revokeToken e token s =
     (case or_else token (accessToken s) of
        None \<Rightarrow> (Inl NoTokenToRevoke, s)
      | Some tokenToRevoke \<Rightarrow>
          if tokenToRevoke = [] then (Inl NoTokenToRevoke, s)
          else
            (case post_revoke e
                    (toString [(''token'', tokenToRevoke),
                               (''client_id'', clientId (config e)),
                               (''client_secret'', clientSecret (config e))]) s of
               (Inl err, s1) \<Rightarrow> (Inl (Rejected err), s1)
             | (Inr _, s1) \<Rightarrow>
                 if \<not> truthy token \<or> token = accessToken s1
                 then (Inr (), s1\<lparr>accessToken := None, tokenExpiresAt := None\<rparr>)
                 else (Inr (), s1)))"

definition bufferTime :: int where
  "bufferTime = 5 * 60 * 1000"

text \<open>
  \<open>getAccessToken\<close> returns \<open>this.accessToken!\<close>: the field as it then is.
\<close>

definition getAccessToken :: "Servers \<Rightarrow> OAuth2Client \<Rightarrow> (failure + string option) \<times> OAuth2Client" where
  "getAccessToken e s =
     (if \<not> truthy (accessToken s) then (Inl NoAccessToken, s)
      else
        (case tokenExpiresAt s of
           None \<Rightarrow> (Inr (accessToken s), s)
         | Some expiry \<Rightarrow>
             if truthy (refreshToken s) then
               if now s \<ge> expiry - bufferTime
               then (case refreshAccessToken e s of
                       (Inl f, s1) \<Rightarrow> (Inl f, s1)
                     | (Inr _, s1) \<Rightarrow> (Inr (accessToken s1), s1))
               else (Inr (accessToken s), s)
             else (Inr (accessToken s), s)))"

definition isAuthenticated :: "OAuth2Client \<Rightarrow> bool" where
  "isAuthenticated s = truthy (accessToken s)"

definition setTokens :: "string \<Rightarrow> string option \<Rightarrow> int option \<Rightarrow> OAuth2Client \<Rightarrow> OAuth2Client" where
  "setTokens a r x s = s\<lparr>accessToken := Some a, refreshToken := r, tokenExpiresAt := x\<rparr>"

definition getTokens :: "OAuth2Client \<Rightarrow> string option \<times> string option \<times> int option" where
  "getTokens s = (accessToken s, refreshToken s, tokenExpiresAt s)"

section \<open>LearnWorldsClient (client.ts)\<close>

text \<open>
  The gateway holds its \<open>OAuth2Client\<close>; the model adds the requests that went out on
  its HTTP instance, oldest first, each as it was when it was sent.
\<close>

record LearnWorldsClient =
  oauth :: OAuth2Client
  sent :: "RequestConfig list"

definition new_LearnWorldsClient :: "LearnWorldsConfig \<Rightarrow> int \<Rightarrow> LearnWorldsClient" where
  "new_LearnWorldsClient c t = \<lparr>oauth = new_OAuth2Client c t, sent = []\<rparr>"

text \<open>The template \<open>`Bearer ${token}`\<close>.\<close>

definition bearer :: "string option \<Rightarrow> string" where
  "bearer token = ''Bearer '' @ (case token of Some t \<Rightarrow> t | None \<Rightarrow> ''undefined'')"

text \<open>The request interceptor: any failure of \<open>getAccessToken\<close> is caught and dropped.\<close>

definition request_interceptor :: "Servers \<Rightarrow> RequestConfig \<Rightarrow> LearnWorldsClient \<Rightarrow> RequestConfig \<times> LearnWorldsClient" where
  "request_interceptor e cfg c =
     (case getAccessToken e (oauth c) of
        (Inr token, o1) \<Rightarrow> (cfg\<lparr>Authorization := Some (bearer token)\<rparr>, c\<lparr>oauth := o1\<rparr>)
      | (Inl _, o1) \<Rightarrow> (cfg, c\<lparr>oauth := o1\<rparr>))"

text \<open>The transport: the request goes out, is recorded, and time passes.\<close>

definition dispatch :: "Servers \<Rightarrow> RequestConfig \<Rightarrow> LearnWorldsClient \<Rightarrow> (AxiosError + ApiResponse AxiosResponse) \<times> LearnWorldsClient" where
  "dispatch e cfg c =
     (let (elapsed, answer) = api_endpoint e (length (sent c)) cfg
      in (answer, c\<lparr>oauth := (oauth c)\<lparr>now := now (oauth c) + int elapsed\<rparr>,
                    sent := sent c @ [cfg]\<rparr>))"

text \<open>\<open>(error.response.data as { message?: string })?.message\<close>.\<close>

definition server_message :: "ErrorBody option AxiosResponse \<Rightarrow> string option" where
  "server_message resp = (case response_data resp of None \<Rightarrow> None | Some b \<Rightarrow> body_message b)"

text \<open>
  \<open>handleError\<close>. \<open>new Error()\<close> has an empty message and no status, code or details;
  the field \<open>code\<close> is set on every path.
\<close>

definition handleError :: "AxiosError \<Rightarrow> LearnWorldsError" where
  "handleError error =
     (let lwError = \<lparr>name = ''LearnWorldsError'', status = None, code = [], message = [],
                      details = None\<rparr>
      in case response error of
           Some resp \<Rightarrow>
             (let lwError1 = lwError
                    \<lparr>status := Some (response_status resp),
                     message :=
                       (case or_else (or_else (server_message resp) (Some (error_message error)))
                               (Some ''API Error'') of
                          Some m \<Rightarrow> m | None \<Rightarrow> []),
                     details := map_option Body (response_data resp)\<rparr>
              in if response_status resp = 401 then
                   lwError1\<lparr>code := ''UNAUTHORIZED'',
                            message := ''Invalid API key or authentication failed''\<rparr>
                 else if response_status resp = 403 then
                   lwError1\<lparr>code := ''FORBIDDEN'', message := ''Access denied''\<rparr>
                 else if response_status resp = 404 then
                   lwError1\<lparr>code := ''NOT_FOUND'', message := ''Resource not found''\<rparr>
                 else if response_status resp = 422 then
                   lwError1\<lparr>code := ''VALIDATION_ERROR'', message := ''Validation failed''\<rparr>
                 else if response_status resp = 429 then
                   lwError1\<lparr>code := ''RATE_LIMIT'', message := ''Rate limit exceeded''\<rparr>
                 else lwError1\<lparr>code := ''API_ERROR''\<rparr>)
         | None \<Rightarrow>
             if request error then
               lwError\<lparr>code := ''NETWORK_ERROR'',
                       message := ''Network error - unable to reach API''\<rparr>
             else
               lwError\<lparr>code := ''UNKNOWN_ERROR'',
                       message := (if error_message error \<noteq> [] then error_message error
                                   else ''Unknown error occurred'')\<rparr>)"

text \<open>\<open>error.response?.status === 401\<close>.\<close>

definition is_401 :: "AxiosError \<Rightarrow> bool" where
  "is_401 error = (case response error of None \<Rightarrow> False | Some resp \<Rightarrow> response_status resp = 401)"

text \<open>
  The \<open>try\<close> block of the response interceptor up to the resend: force a refresh,
  fetch the token, overwrite the header. Any failure there is caught.
\<close>

definition refresh_for_retry :: "Servers \<Rightarrow> RequestConfig \<Rightarrow> LearnWorldsClient \<Rightarrow> RequestConfig option \<times> LearnWorldsClient" where
  "refresh_for_retry e originalRequest c =
     (case refreshAccessToken e (oauth c) of
        (Inl _, o1) \<Rightarrow> (None, c\<lparr>oauth := o1\<rparr>)
      | (Inr _, o1) \<Rightarrow>
          (case getAccessToken e o1 of
             (Inl _, o2) \<Rightarrow> (None, c\<lparr>oauth := o2\<rparr>)
           | (Inr token, o2) \<Rightarrow>
               (Some (originalRequest\<lparr>Authorization := Some (bearer token)\<rparr>), c\<lparr>oauth := o2\<rparr>)))"

text \<open>
  One call of the HTTP instance, \<open>this.http(config)\<close>: the request interceptor, the
  transport, and on a rejection the response interceptor, whose resend
  \<open>this.http(originalRequest)\<close> enters the same pipeline again. \<open>error.config\<close> is the
  configuration the request went out with.
\<close>

function http :: "Servers \<Rightarrow> RequestConfig \<Rightarrow> LearnWorldsClient \<Rightarrow> (LearnWorldsError + ApiResponse AxiosResponse) \<times> LearnWorldsClient" where
  "http e cfg c =
     (case request_interceptor e cfg c of
        (cfg1, c1) \<Rightarrow>
          (case dispatch e cfg1 c1 of
             (Inr resp, c2) \<Rightarrow> (Inr resp, c2)
           | (Inl error, c2) \<Rightarrow>
               if is_401 error \<and> \<not> retry cfg1 \<and> truthy (refreshToken (oauth c2)) then
                 (case refresh_for_retry e (cfg1\<lparr>retry := True\<rparr>) c2 of
                    (Some originalRequest, c3) \<Rightarrow> http e originalRequest c3
                  | (None, c3) \<Rightarrow> (Inl (handleError error), c3))
               else (Inl (handleError error), c2)))"
  by pat_completeness auto

termination
proof (relation "measure (\<lambda>(e, cfg, c). if retry cfg then 0 else 1)", goal_cases)
  case 1
  show ?case by simp
next
  case (2 e cfg c cfg1 c1 answer c2 error got c3 originalRequest)
  from 2(1) have "retry cfg1 = retry cfg"
    by (auto simp: request_interceptor_def split: prod.splits sum.splits)
  moreover from 2(5,6) have "retry originalRequest"
    by (auto simp: refresh_for_retry_def split: prod.splits sum.splits)
  ultimately show ?case using 2(4) by simp
qed

declare http.simps [simp del]

definition makeRequest :: "Servers \<Rightarrow> http_method \<Rightarrow> string \<Rightarrow> json option \<Rightarrow> json option \<Rightarrow> LearnWorldsClient \<Rightarrow> (LearnWorldsError + json) \<times> LearnWorldsClient" where
  "makeRequest e m endpoint d p c =
     (case http e \<lparr>request_method = m, url = endpoint, data = d, params = p,
                    Authorization = None, retry = False\<rparr> c of
        (Inl err, c1) \<Rightarrow> (Inl err, c1)
      | (Inr resp, c1) \<Rightarrow>
          if \<not> success (response_data resp) then
            (Inl \<lparr>name = ''Error'', status = None, code = ''API_ERROR'',
                  message = (case or_else (api_message (response_data resp))
                                    (Some ''API request failed'') of
                               Some m \<Rightarrow> m | None \<Rightarrow> []),
                  details = map_option Errors (errors (response_data resp))\<rparr>, c1)
          else (Inr (api_data (response_data resp)), c1))"

section \<open>The vocabulary of the specification\<close>

text \<open>The configuration \<open>makeRequest\<close> builds for a request: no header, not yet retried.\<close>

abbreviation new_request :: "http_method \<Rightarrow> string \<Rightarrow> json option \<Rightarrow> json option \<Rightarrow> RequestConfig" where
  "new_request m u d p \<equiv>
     \<lparr>request_method = m, url = u, data = d, params = p, Authorization = None, retry = False\<rparr>"

text \<open>
  The table of error codes and default messages, and the message the specification
  promises: the default of the status, overridden by a message of the server.
\<close>

definition status_code :: "int \<Rightarrow> string" where
  "status_code n =
     (if n = 401 then ''UNAUTHORIZED'' else if n = 403 then ''FORBIDDEN''
      else if n = 404 then ''NOT_FOUND'' else if n = 422 then ''VALIDATION_ERROR''
      else if n = 429 then ''RATE_LIMIT'' else ''API_ERROR'')"

definition listed_message :: "int \<Rightarrow> string" where
  "listed_message n =
     (if n = 401 then ''Invalid API key or authentication failed''
      else if n = 403 then ''Access denied''
      else if n = 404 then ''Resource not found''
      else if n = 422 then ''Validation failed''
      else if n = 429 then ''Rate limit exceeded''
      else ''API Error'')"

definition claimed_message :: "int \<Rightarrow> string option \<Rightarrow> string" where
  "claimed_message n server = (case server of Some m \<Rightarrow> m | None \<Rightarrow> listed_message n)"

text \<open>
  The install contract: the access token of the response is stored, a response without
  \<open>refresh_token\<close> leaves the refresh token, the refresh token changes only to the one of
  the response, and a non-empty one of the response is stored.
\<close>

definition installed :: "TokenResponse \<Rightarrow> OAuth2Client \<Rightarrow> OAuth2Client \<Rightarrow> bool" where
  "installed r s s' \<longleftrightarrow>
     accessToken s' = Some (access_token r) \<and>
     (refresh_token r = None \<longrightarrow> refreshToken s' = refreshToken s) \<and>
     (refreshToken s' \<noteq> refreshToken s \<longrightarrow>
        refresh_token r \<noteq> None \<and> refreshToken s' = refresh_token r) \<and>
     (truthy (refresh_token r) \<longrightarrow> refreshToken s' = refresh_token r)"

text \<open>Reading a form-encoded body back: the pieces between \<open>&\<close>, each cut at its first \<open>=\<close>.\<close>

fun split_amp :: "string \<Rightarrow> string list" where
  "split_amp [] = [[]]"
| "split_amp (x # xs) =
     (if x = CHR ''&'' then [] # split_amp xs
      else (case split_amp xs of [] \<Rightarrow> [[x]] | y # ys \<Rightarrow> (x # y) # ys))"

definition fields :: "string \<Rightarrow> (string \<times> string) list" where
  "fields body =
     (if body = [] then []
      else map (\<lambda>piece. (takeWhile (\<lambda>c. c \<noteq> CHR ''='') piece,
                          drop 1 (dropWhile (\<lambda>c. c \<noteq> CHR ''='') piece)))
             (split_amp body))"

text \<open>The body of the last request a grant operation made.\<close>

definition wire_body :: "'a \<times> OAuth2Client \<Rightarrow> string" where
  "wire_body out = snd (last (posts (snd out)))"

text \<open>An optional parameter: on the wire for a non-empty value only.\<close>

fun optional_field :: "string \<Rightarrow> string option \<Rightarrow> (string \<times> string) list" where
  "optional_field k None = []"
| "optional_field k (Some v) = (if v = [] then [] else [(k, urlencode v)])"


section \<open>Example configurations\<close>

definition demo_config :: LearnWorldsConfig where
  "demo_config =
     \<lparr>schoolDomain = ''testschool'', clientId = ''cid'', clientSecret = ''secret'',
      apiHost = ''api.testschool.learnworlds.com'', redirectUri = Some ''https://app.com/cb'',
      config_accessToken = None, config_refreshToken = None, onTokenRefresh = None\<rparr>"

text \<open>
  Servers whose \<open>n\<close>-th answer is scripted, each after 100 ms, in a time zone without
  clock changes.
\<close>

definition demo_servers :: "(nat \<Rightarrow> AxiosError + TokenResponse) \<Rightarrow> (nat \<Rightarrow> AxiosError + unit) \<Rightarrow> (nat \<Rightarrow> AxiosError + ApiResponse AxiosResponse) \<Rightarrow> Servers" where
  "demo_servers tk rv api =
     \<lparr>config = demo_config,
      token_endpoint = (\<lambda>n body. (100, tk n)),
      revoke_endpoint = (\<lambda>n body. (100, rv n)),
      api_endpoint = (\<lambda>n cfg. (100, api n)),
      setSeconds = (\<lambda>t n. t + n * 1000)\<rparr>"

definition token_reply :: "string \<Rightarrow> string option \<Rightarrow> TokenResponse" where
  "token_reply a r =
     \<lparr>access_token = a, token_type = ''Bearer'', expires_in = 3600, refresh_token = r,
      scope = None\<rparr>"

definition network_error :: AxiosError where
  "network_error = \<lparr>error_message = ''Network Error'', response = None, request = True\<rparr>"

definition status_error :: "int \<Rightarrow> string option \<Rightarrow> AxiosError" where
  "status_error n m =
     \<lparr>error_message = ''Request failed'',
      response = Some \<lparr>response_status = n,
                         response_data = Some \<lparr>body_message = m, body_raw = ''{}''\<rparr>\<rparr>,
      request = True\<rparr>"

definition envelope :: "bool \<Rightarrow> json \<Rightarrow> string option \<Rightarrow> ApiResponse AxiosResponse" where
  "envelope ok d m =
     \<lparr>response_status = 200,
      response_data = \<lparr>success = ok, api_data = d, api_message = m, errors = Some [''E1'']\<rparr>\<rparr>"

definition demo_client :: "string option \<Rightarrow> string option \<Rightarrow> int option \<Rightarrow> OAuth2Client" where
  "demo_client a r x =
     \<lparr>accessToken = a, refreshToken = r, tokenExpiresAt = x, now = 1000000, posts = []\<rparr>"

text \<open>Every server unreachable; only the revocation endpoint answering.\<close>

definition offline :: Servers where
  "offline =
     demo_servers (\<lambda>n. Inl network_error) (\<lambda>n. Inl network_error) (\<lambda>n. Inl network_error)"

definition revoking :: Servers where
  "revoking = demo_servers (\<lambda>n. Inl network_error) (\<lambda>n. Inr ()) (\<lambda>n. Inl network_error)"

text \<open>
  A token endpoint that answers the first request with a refresh token and every later
  one without.
\<close>

definition issuing :: Servers where
  "issuing = demo_servers
     (\<lambda>n. if n = 0 then Inr (token_reply ''a1'' (Some ''r1'')) else Inr (token_reply ''a2'' None))
     (\<lambda>n. Inr ()) (\<lambda>n. Inl network_error)"

text \<open>Whether the configured callback, if any, completes on a response.\<close>

definition callback_completes :: "Servers \<Rightarrow> TokenResponse \<Rightarrow> bool" where
  "callback_completes e r =
     (case onTokenRefresh (config e) of None \<Rightarrow> True | Some callback \<Rightarrow> callback r = Completed)"

text \<open>A gateway that has sent nothing yet.\<close>

definition demo_gateway :: "string option \<Rightarrow> string option \<Rightarrow> int option \<Rightarrow> LearnWorldsClient" where
  "demo_gateway a r x = \<lparr>oauth = demo_client a r x, sent = []\<rparr>"

text \<open>An API that answers every request with 401, beside a working token endpoint.\<close>

definition unauthorized_twice :: Servers where
  "unauthorized_twice = demo_servers (\<lambda>n. Inr (token_reply ''a1'' None)) (\<lambda>n. Inr ())
     (\<lambda>n. Inl (status_error 401 None))"

text \<open>An API that answers 401 while the token endpoint is unreachable.\<close>

definition refresh_down :: Servers where
  "refresh_down = demo_servers (\<lambda>n. Inl network_error) (\<lambda>n. Inr ())
     (\<lambda>n. Inl (status_error 401 (Some ''expired'')))"


text \<open>An API that answers every request with the given response.\<close>

definition answering :: "ApiResponse AxiosResponse \<Rightarrow> Servers" where
  "answering resp = demo_servers (\<lambda>n. Inl network_error) (\<lambda>n. Inr ()) (\<lambda>n. Inr resp)"






section \<open>OAuth2Client: the effect of each operation\<close>

lemma post_token_effect:
  "post_token e b s = (ans, s') \<Longrightarrow>
     ans = snd (token_endpoint e (length (posts s)) b) \<and>
     accessToken s' = accessToken s \<and> refreshToken s' = refreshToken s \<and>
     tokenExpiresAt s' = tokenExpiresAt s \<and>
     posts s' = posts s @ [(''/oauth2/token'', b)]"
  by (auto simp: post_token_def split: prod.splits)

lemma post_revoke_effect:
  "post_revoke e b s = (ans, s') \<Longrightarrow>
     ans = snd (revoke_endpoint e (length (posts s)) b) \<and>
     accessToken s' = accessToken s \<and> refreshToken s' = refreshToken s \<and>
     tokenExpiresAt s' = tokenExpiresAt s \<and>
     posts s' = posts s @ [(''/oauth2/revoke'', b)]"
  by (auto simp: post_revoke_def split: prod.splits)

lemma handleTokenResponse_effect:
  "handleTokenResponse e r s = (out, s') \<Longrightarrow>
     accessToken s' = Some (access_token r) \<and>
     refreshToken s' = (if truthy (refresh_token r) then refresh_token r else refreshToken s) \<and>
     posts s' = posts s"
  by (auto simp: handleTokenResponse_def Let_def split: option.splits callback_outcome.splits if_splits)

lemma request_token_effect:
  assumes "request_token e ps s = (out, s')"
  shows "posts s' = posts s @ [(''/oauth2/token'', toString ps)]"
    and "out = Inr r \<Longrightarrow> snd (token_endpoint e (length (posts s)) (toString ps)) = Inr r \<and>
           accessToken s' = Some (access_token r) \<and>
           refreshToken s' = (if truthy (refresh_token r) then refresh_token r else refreshToken s)"
    and "snd (token_endpoint e (length (posts s)) (toString ps)) = Inl err \<Longrightarrow>
           out = Inl (Rejected err) \<and> accessToken s' = accessToken s \<and>
           refreshToken s' = refreshToken s \<and> tokenExpiresAt s' = tokenExpiresAt s"
  using assms
  by (auto simp: request_token_def split: prod.splits sum.splits
      dest!: post_token_effect handleTokenResponse_effect)

text \<open>
  C10: when the POST to the revocation endpoint is rejected, \<open>revokeToken\<close> fails with
  that rejection and the access token, the refresh token and the expiry are what they
  were.
\<close>

theorem revokeToken_rejected_keeps_credentials:
  assumes "or_else token (accessToken s) = Some t" and "t \<noteq> []"
    and "snd (revoke_endpoint e (length (posts s))
           (toString [(''token'', t), (''client_id'', clientId (config e)),
                      (''client_secret'', clientSecret (config e))])) = Inl err"
  shows "fst (revokeToken e token s) = Inl (Rejected err) \<and>
         accessToken (snd (revokeToken e token s)) = accessToken s \<and>
         refreshToken (snd (revokeToken e token s)) = refreshToken s \<and>
         tokenExpiresAt (snd (revokeToken e token s)) = tokenExpiresAt s"
  using assms
  by (auto simp: revokeToken_def split: prod.splits sum.splits dest!: post_revoke_effect)

theorem revokeToken_rejected_keeps_credentials_witness:
  "fst (revokeToken offline
          None (demo_client (Some ''tok'') (Some ''ref'') (Some 5000000)))
     = Inl (Rejected network_error) \<and>
   accessToken (snd (revokeToken offline
          None (demo_client (Some ''tok'') (Some ''ref'') (Some 5000000)))) = Some ''tok''"
  using revokeToken_rejected_keeps_credentials
    [of None "demo_client (Some ''tok'') (Some ''ref'') (Some 5000000)" "''tok''"
        offline
        network_error]
  by (simp add: or_else_def demo_client_def demo_servers_def offline_def)

lemma revokeToken_cases:
  assumes "revokeToken e token s = (out, s')"
  shows "(\<not> truthy (or_else token (accessToken s)) \<and> out = Inl NoTokenToRevoke \<and> s' = s) \<or>
     (\<exists>t. or_else token (accessToken s) = Some t \<and> t \<noteq> [] \<and>
        posts s' = posts s @ [(''/oauth2/revoke'', toString [(''token'', t), (''client_id'', clientId (config e)),
                      (''client_secret'', clientSecret (config e))])] \<and>
        refreshToken s' = refreshToken s \<and>
        ((\<exists>err. snd (revoke_endpoint e (length (posts s)) (toString [(''token'', t), (''client_id'', clientId (config e)),
                      (''client_secret'', clientSecret (config e))])) = Inl err \<and>
            out = Inl (Rejected err) \<and> accessToken s' = accessToken s \<and>
            tokenExpiresAt s' = tokenExpiresAt s) \<or>
         (snd (revoke_endpoint e (length (posts s)) (toString [(''token'', t), (''client_id'', clientId (config e)),
                      (''client_secret'', clientSecret (config e))])) = Inr () \<and>
            out = Inr () \<and>
            (if \<not> truthy token \<or> token = accessToken s
             then accessToken s' = None \<and> tokenExpiresAt s' = None
             else accessToken s' = accessToken s \<and> tokenExpiresAt s' = tokenExpiresAt s))))"
  using assms unfolding revokeToken_def
  by (auto split: option.splits if_splits prod.splits sum.splits dest!: post_revoke_effect)

lemma revokeToken_failure_keeps_credentials:
  assumes "fst (revokeToken e token s) = Inl f"
  shows "accessToken (snd (revokeToken e token s)) = accessToken s \<and>
     refreshToken (snd (revokeToken e token s)) = refreshToken s \<and>
     tokenExpiresAt (snd (revokeToken e token s)) = tokenExpiresAt s"
proof -
  obtain out s' where r: "revokeToken e token s = (out, s')" by (cases "revokeToken e token s")
  from revokeToken_cases [OF r] assms r show ?thesis
    by auto
qed

text \<open>
  C5, as stated, at an empty-string argument: the argument differs from the held access
  token, yet the held token and its expiry are cleared.
\<close>

theorem revokeToken_empty_argument_counterexample:
  "Some [] \<noteq> accessToken (demo_client (Some ''tok'') (Some ''ref'') (Some 5000000)) \<and>
   fst (revokeToken revoking
          (Some []) (demo_client (Some ''tok'') (Some ''ref'') (Some 5000000))) = Inr () \<and>
   accessToken (snd (revokeToken revoking
          (Some []) (demo_client (Some ''tok'') (Some ''ref'') (Some 5000000)))) = None \<and>
   \<not> isAuthenticated (snd (revokeToken revoking
          (Some []) (demo_client (Some ''tok'') (Some ''ref'') (Some 5000000))))"
  by (simp add: revokeToken_def or_else_def demo_client_def demo_servers_def post_revoke_def
      isAuthenticated_def revoking_def)

text \<open>
  C5, amended: when the revocation endpoint accepts the request, \<open>revokeToken\<close> without
  an argument, with an empty one, or with the held access token clears the access token
  and its expiry and leaves the refresh token; with a non-empty argument that is not the
  held access token it leaves all three as they were; without a non-empty argument and
  without a held access token it fails with \<open>NoTokenToRevoke\<close> and changes nothing.
\<close>

theorem revokeToken_local_state:
  assumes "\<And>body. snd (revoke_endpoint e (length (posts s)) body) = Inr ()"
  shows
    "(truthy (or_else token (accessToken s)) \<and> (\<not> truthy token \<or> token = accessToken s) \<longrightarrow>
        fst (revokeToken e token s) = Inr () \<and>
        accessToken (snd (revokeToken e token s)) = None \<and>
        tokenExpiresAt (snd (revokeToken e token s)) = None \<and>
        refreshToken (snd (revokeToken e token s)) = refreshToken s \<and>
        \<not> isAuthenticated (snd (revokeToken e token s))) \<and>
     (truthy token \<and> token \<noteq> accessToken s \<longrightarrow>
        fst (revokeToken e token s) = Inr () \<and>
        accessToken (snd (revokeToken e token s)) = accessToken s \<and>
        tokenExpiresAt (snd (revokeToken e token s)) = tokenExpiresAt s \<and>
        refreshToken (snd (revokeToken e token s)) = refreshToken s \<and>
        isAuthenticated (snd (revokeToken e token s)) = isAuthenticated s) \<and>
     (\<not> truthy token \<and> \<not> truthy (accessToken s) \<longrightarrow>
        revokeToken e token s = (Inl NoTokenToRevoke, s))"
proof -
  obtain out s' where r: "revokeToken e token s = (out, s')" by (cases "revokeToken e token s")
  from revokeToken_cases [OF r] show ?thesis
    unfolding r using assms
    by (auto simp: isAuthenticated_def or_else_def split: if_splits)
qed

theorem revokeToken_local_state_witness:
  "\<not> isAuthenticated (snd (revokeToken revoking
          None (demo_client (Some ''tok'') (Some ''ref'') (Some 5000000)))) \<and>
   refreshToken (snd (revokeToken revoking
          None (demo_client (Some ''tok'') (Some ''ref'') (Some 5000000)))) = Some ''ref'' \<and>
   isAuthenticated (snd (revokeToken revoking
          (Some ''other'') (demo_client (Some ''tok'') (Some ''ref'') (Some 5000000)))) \<and>
   fst (revokeToken revoking
          None (demo_client None (Some ''ref'') None)) = Inl NoTokenToRevoke"
  using
    revokeToken_local_state [of revoking
       "demo_client (Some ''tok'') (Some ''ref'') (Some 5000000)" None]
    revokeToken_local_state [of revoking
       "demo_client (Some ''tok'') (Some ''ref'') (Some 5000000)" "Some ''other''"]
    revokeToken_local_state [of revoking
       "demo_client None (Some ''ref'') None" None]
  by (simp add: demo_servers_def demo_client_def or_else_def isAuthenticated_def revoking_def)

lemma refreshAccessToken_cases:
  assumes "refreshAccessToken e s = (out, s')"
  shows "(\<not> truthy (refreshToken s) \<and> out = Inl NoRefreshToken \<and> s' = s) \<or>
     (\<exists>t. refreshToken s = Some t \<and> t \<noteq> [] \<and>
        request_token e [(''grant_type'', ''refresh_token''), (''refresh_token'', t),
          (''client_id'', clientId (config e)), (''client_secret'', clientSecret (config e))] s
        = (out, s'))"
  using assms unfolding refreshAccessToken_def
  by (auto split: option.splits if_splits)

text \<open>
  C3: \<open>handleTokenResponse\<close> installs every response it is given, and so does each of the
  four grant and refresh operations with the response it returns: the access token of
  the response is stored; the stored refresh token is the one held before when the
  response has no \<open>refresh_token\<close>, and it changes only to the \<open>refresh_token\<close> of the
  response.
\<close>

theorem token_response_installed:
  "installed r s (snd (handleTokenResponse e r s)) \<and>
   (\<forall>grant s'.
      (grant = exchangeAuthorizationCode e code_request \<or>
       grant = authenticateWithPassword e password_request \<or>
       grant = authenticateWithClientCredentials e sc \<or>
       grant = refreshAccessToken e) \<and>
      grant s = (Inr r, s') \<longrightarrow> installed r s s')"
proof (intro conjI allI impI)
  show "installed r s (snd (handleTokenResponse e r s))"
    using handleTokenResponse_effect [of e r s "fst (handleTokenResponse e r s)" "snd (handleTokenResponse e r s)"]
    by (cases "refresh_token r") (auto simp: installed_def)
next
  fix grant s'
  assume a: "(grant = exchangeAuthorizationCode e code_request \<or>
       grant = authenticateWithPassword e password_request \<or>
       grant = authenticateWithClientCredentials e sc \<or>
       grant = refreshAccessToken e) \<and>
      grant s = (Inr r, s')"
  then have "\<exists>ps. request_token e ps s = (Inr r, s')"
    by (auto simp: exchangeAuthorizationCode_def authenticateWithPassword_def
        authenticateWithClientCredentials_def dest!: refreshAccessToken_cases)
  then obtain ps where "request_token e ps s = (Inr r, s')" ..
  from request_token_effect(2) [OF this refl] show "installed r s s'"
    by (cases "refresh_token r") (auto simp: installed_def)
qed

lemma request_token_answer:
  assumes "request_token e ps s = (out, s')"
    and "snd (token_endpoint e (length (posts s)) (toString ps)) = Inr r"
  shows "out = (case onTokenRefresh (config e) of
                  None \<Rightarrow> Inr r
                | Some callback \<Rightarrow>
                    (case callback r of Completed \<Rightarrow> Inr r | Threw m \<Rightarrow> Inl (CallbackThrew m)))"
  using assms
  by (auto simp: request_token_def handleTokenResponse_def Let_def
      split: prod.splits sum.splits option.splits callback_outcome.splits if_splits
      dest!: post_token_effect)

text \<open>
  C4: \<open>getAccessToken\<close> fails with \<open>NoAccessToken\<close> when no access token is held.
  Otherwise, when an expiry and a refresh token are held and the time is at or past the
  expiry minus five minutes, it makes exactly one refresh request and returns the access
  token of the response (the rejection, if the request is rejected). When the expiry is
  more than five minutes away, or no expiry or no refresh token is held, it returns the
  stored token and nothing else happens.
\<close>

theorem getAccessToken_behaviour:
  "(\<not> truthy (accessToken s) \<longrightarrow> getAccessToken e s = (Inl NoAccessToken, s)) \<and>
   (truthy (accessToken s) \<and> tokenExpiresAt s = Some x \<and> refreshToken s = Some t \<and> t \<noteq> [] \<and>
    now s \<ge> x - 300000 \<longrightarrow>
      posts (snd (getAccessToken e s)) =
        posts s @ [(''/oauth2/token'',
                    toString [(''grant_type'', ''refresh_token''), (''refresh_token'', t),
                              (''client_id'', clientId (config e)),
                              (''client_secret'', clientSecret (config e))])] \<and>
      (\<forall>r. snd (token_endpoint e (length (posts s))
                 (toString [(''grant_type'', ''refresh_token''), (''refresh_token'', t),
                            (''client_id'', clientId (config e)),
                            (''client_secret'', clientSecret (config e))])) = Inr r \<and>
           callback_completes e r \<longrightarrow>
           fst (getAccessToken e s) = Inr (Some (access_token r)) \<and>
           accessToken (snd (getAccessToken e s)) = Some (access_token r)) \<and>
      (\<forall>err. snd (token_endpoint e (length (posts s))
                 (toString [(''grant_type'', ''refresh_token''), (''refresh_token'', t),
                            (''client_id'', clientId (config e)),
                            (''client_secret'', clientSecret (config e))])) = Inl err \<longrightarrow>
           fst (getAccessToken e s) = Inl (Rejected err))) \<and>
   (truthy (accessToken s) \<and>
    (tokenExpiresAt s = None \<or> \<not> truthy (refreshToken s) \<or>
     (\<exists>y. tokenExpiresAt s = Some y \<and> now s < y - 300000)) \<longrightarrow>
      getAccessToken e s = (Inr (accessToken s), s))"
proof (intro conjI impI)
  assume "\<not> truthy (accessToken s)"
  then show "getAccessToken e s = (Inl NoAccessToken, s)"
    by (simp add: getAccessToken_def)
next
  assume "truthy (accessToken s) \<and>
    (tokenExpiresAt s = None \<or> \<not> truthy (refreshToken s) \<or>
     (\<exists>y. tokenExpiresAt s = Some y \<and> now s < y - 300000))"
  then show "getAccessToken e s = (Inr (accessToken s), s)"
    by (auto simp: getAccessToken_def bufferTime_def split: option.splits)
next
  let ?ps = "[(''grant_type'', ''refresh_token''), (''refresh_token'', t),
              (''client_id'', clientId (config e)), (''client_secret'', clientSecret (config e))]"
  assume h: "truthy (accessToken s) \<and> tokenExpiresAt s = Some x \<and> refreshToken s = Some t \<and>
    t \<noteq> [] \<and> now s \<ge> x - 300000"
  obtain out s' where rt: "request_token e ?ps s = (out, s')"
    by (cases "request_token e ?ps s")
  have g: "getAccessToken e s =
      (case out of Inl f \<Rightarrow> (Inl f, s') | Inr _ \<Rightarrow> (Inr (accessToken s'), s'))"
    using h rt by (simp add: getAccessToken_def refreshAccessToken_def bufferTime_def split: sum.splits)
  have s': "snd (getAccessToken e s) = s'"
    unfolding g by (cases out) simp_all
  show "posts (snd (getAccessToken e s)) = posts s @ [(''/oauth2/token'', toString ?ps)]"
    unfolding s' using request_token_effect(1) [OF rt] .
  show "\<forall>r. snd (token_endpoint e (length (posts s)) (toString ?ps)) = Inr r \<and>
           callback_completes e r \<longrightarrow>
           fst (getAccessToken e s) = Inr (Some (access_token r)) \<and>
           accessToken (snd (getAccessToken e s)) = Some (access_token r)"
  proof (intro allI impI)
    fix r
    assume a: "snd (token_endpoint e (length (posts s)) (toString ?ps)) = Inr r \<and>
           callback_completes e r"
    then have "out = Inr r"
      using request_token_answer [OF rt, of r]
      by (auto simp: callback_completes_def split: option.splits)
    with request_token_effect(2) [OF rt, of r] show
      "fst (getAccessToken e s) = Inr (Some (access_token r)) \<and>
           accessToken (snd (getAccessToken e s)) = Some (access_token r)"
      unfolding g by simp
  qed
  show "\<forall>err. snd (token_endpoint e (length (posts s)) (toString ?ps)) = Inl err \<longrightarrow>
           fst (getAccessToken e s) = Inl (Rejected err)"
    using request_token_effect(3) [OF rt] unfolding g by auto
qed

theorem getAccessToken_behaviour_witness:
  "getAccessToken issuing (demo_client None (Some ''ref'') None)
     = (Inl NoAccessToken, demo_client None (Some ''ref'') None) \<and>
   fst (getAccessToken issuing (demo_client (Some ''old'') (Some ''ref'') (Some 1200000)))
     = Inr (Some ''a1'') \<and>
   length (posts (snd (getAccessToken issuing (demo_client (Some ''old'') (Some ''ref'') (Some 1200000))))) = 1 \<and>
   getAccessToken issuing (demo_client (Some ''tok'') (Some ''ref'') (Some 5000000))
     = (Inr (Some ''tok''), demo_client (Some ''tok'') (Some ''ref'') (Some 5000000))"
  using
    getAccessToken_behaviour [where s = "demo_client None (Some ''ref'') None" and e = issuing]
    getAccessToken_behaviour [where s = "demo_client (Some ''old'') (Some ''ref'') (Some 1200000)"
       and x = 1200000 and t = "''ref''" and e = issuing]
    getAccessToken_behaviour [where s = "demo_client (Some ''tok'') (Some ''ref'') (Some 5000000)"
       and e = issuing]
  by (simp add: issuing_def demo_servers_def demo_client_def demo_config_def token_reply_def
      callback_completes_def)

theorem token_response_installed_witness:
  "refreshToken (snd (authenticateWithPassword issuing
       \<lparr>username = ''u'', password = ''p'', request_scope = None\<rparr> (demo_client None None None)))
     = Some ''r1'' \<and>
   refreshToken (snd (authenticateWithClientCredentials issuing None
     (snd (authenticateWithPassword issuing
       \<lparr>username = ''u'', password = ''p'', request_scope = None\<rparr> (demo_client None None None)))))
     = Some ''r1'' \<and>
   accessToken (snd (authenticateWithClientCredentials issuing None
     (snd (authenticateWithPassword issuing
       \<lparr>username = ''u'', password = ''p'', request_scope = None\<rparr> (demo_client None None None)))))
     = Some ''a2''"
proof -
  let ?req = "\<lparr>username = ''u'', password = ''p'', request_scope = None\<rparr>"
  let ?s0 = "demo_client None None None"
  obtain s1 where s1: "authenticateWithPassword issuing ?req ?s0 = (Inr (token_reply ''a1'' (Some ''r1'')), s1)"
    by (simp add: authenticateWithPassword_def request_token_def post_token_def
        handleTokenResponse_def issuing_def demo_servers_def demo_client_def demo_config_def token_reply_def)
  have p1: "length (posts s1) = 1"
    using request_token_effect(1) [of issuing _ ?s0 _ s1] s1
    by (simp add: authenticateWithPassword_def demo_client_def)
  obtain s2 where s2: "authenticateWithClientCredentials issuing None s1 = (Inr (token_reply ''a2'' None), s2)"
    using p1
    by (simp add: authenticateWithClientCredentials_def request_token_def post_token_def
        handleTokenResponse_def issuing_def demo_servers_def demo_config_def token_reply_def)
  have "installed (token_reply ''a1'' (Some ''r1'')) ?s0 s1"
    using token_response_installed [where e = issuing and password_request = ?req and s = ?s0
        and r = "token_reply ''a1'' (Some ''r1'')"] s1
    by blast
  then have "refreshToken s1 = Some ''r1''"
    by (simp add: installed_def token_reply_def)
  moreover have "installed (token_reply ''a2'' None) s1 s2"
    using token_response_installed [where e = issuing and sc = None and s = s1
        and r = "token_reply ''a2'' None"] s2
    by blast
  then have "accessToken s2 = Some ''a2'' \<and> refreshToken s2 = refreshToken s1"
    by (simp add: installed_def token_reply_def)
  ultimately show ?thesis by (simp add: s1 s2)
qed

section \<open>URLSearchParams: what a body contains\<close>

lemma hex_digit_in: "hex_digit n \<in> set ''0123456789ABCDEF''"
  unfolding hex_digit_def by (rule nth_mem) simp

lemma encode_byte_chars:
  "set (encode_byte c) \<subseteq>
     set ''abcdefghijklmnopqrstuvwxyzABCDEFGHIJKLMNOPQRSTUVWXYZ0123456789*-._+%''"
  using hex_digit_in [of "of_char c div 16"] hex_digit_in [of "of_char c mod 16"]
  by (auto simp: encode_byte_def unreserved_def)

lemma urlencode_chars:
  "set (urlencode s) \<subseteq>
     set ''abcdefghijklmnopqrstuvwxyzABCDEFGHIJKLMNOPQRSTUVWXYZ0123456789*-._+%''"
  unfolding urlencode_def using encode_byte_chars by (induction s) auto

lemma urlencode_no_separator [simp]:
  "CHR ''='' \<notin> set (urlencode s)" "CHR ''&'' \<notin> set (urlencode s)"
  using urlencode_chars [of s] by auto

lemma split_amp_nonempty [simp]: "split_amp xs \<noteq> []"
  by (induction xs) (auto split: list.splits)

lemma split_amp_plain: "CHR ''&'' \<notin> set a \<Longrightarrow> split_amp a = [a]"
  by (induction a) (auto split: list.splits)

lemma split_amp_append: "CHR ''&'' \<notin> set a \<Longrightarrow> split_amp (a @ CHR ''&'' # b) = a # split_amp b"
  by (induction a) (auto split: list.splits)

lemma cut_pair:
  "CHR ''='' \<notin> set k \<Longrightarrow>
     takeWhile (\<lambda>c. c \<noteq> CHR ''='') (k @ CHR ''='' # v) = k \<and>
     drop 1 (dropWhile (\<lambda>c. c \<noteq> CHR ''='') (k @ CHR ''='' # v)) = v"
  by (induction k) auto

lemma split_amp_join:
  "ps \<noteq> [] \<Longrightarrow> split_amp (join_amp (map (\<lambda>(k, v). urlencode k @ ''='' @ urlencode v) ps))
     = map (\<lambda>(k, v). urlencode k @ ''='' @ urlencode v) ps"
proof (induction ps rule: induct_list012)
  case 1
  then show ?case by simp
next
  case (2 x)
  then show ?case by (cases x) (simp add: split_amp_plain)
next
  case (3 x y zs)
  obtain k v where x: "x = (k, v)" by (cases x)
  have "CHR ''&'' \<notin> set (urlencode k @ ''='' @ urlencode v)" by simp
  from split_amp_append [OF this] 3(2) show ?case
    by (simp add: x)
qed

lemma fields_toString:
  "fields (toString ps) = map (\<lambda>(k, v). (urlencode k, urlencode v)) ps"
proof (cases "ps = []")
  case True
  then show ?thesis by (simp add: fields_def toString_def)
next
  case False
  then obtain x xs where "ps = x # xs" by (cases ps) auto
  then have ne: "toString ps \<noteq> []"
    by (cases x; cases xs) (auto simp: toString_def)
  show ?thesis
    using split_amp_join [OF False] ne cut_pair
    by (auto simp: fields_def toString_def)
qed

lemma first_occurrence:
  "c \<notin> set xs \<Longrightarrow> c \<notin> set ys \<Longrightarrow> xs @ c # t = ys @ c # ss \<Longrightarrow> xs = ys \<and> t = ss"
proof (induction xs arbitrary: ys)
  case Nil
  then show ?case by (cases ys) auto
next
  case (Cons x xs)
  then show ?case by (cases ys) auto
qed

lemma sublist_key:
  assumes "c \<notin> set u" and "c \<notin> set a"
  shows "sublist (u @ [c]) (a @ c # t) \<longleftrightarrow> suffix u a \<or> sublist (u @ [c]) t"
proof
  assume "sublist (u @ [c]) (a @ c # t)"
  then obtain ps ss where eq: "a @ c # t = ps @ u @ c # ss"
    by (auto simp: sublist_def)
  then obtain us where "(a = ps @ us \<and> us @ c # t = u @ c # ss) \<or> (a @ us = ps \<and> c # t = us @ u @ c # ss)"
    by (auto simp: append_eq_append_conv2)
  then show "suffix u a \<or> sublist (u @ [c]) t"
  proof (elim disjE conjE)
    assume a: "a = ps @ us" and b: "us @ c # t = u @ c # ss"
    from a assms(2) have "c \<notin> set us" by simp
    with b assms(1) have "us = u" using first_occurrence [of c us u t ss] by simp
    with a show ?thesis by (simp add: suffix_def)
  next
    assume b: "c # t = us @ u @ c # ss"
    show ?thesis
    proof (cases us)
      case Nil
      with b assms(1) have "u = []" by (cases u) auto
      then show ?thesis by simp
    next
      case (Cons x us')
      with b have "t = us' @ (u @ [c]) @ ss" by simp
      then show ?thesis unfolding sublist_def by blast
    qed
  qed
next
  assume "suffix u a \<or> sublist (u @ [c]) t"
  then show "sublist (u @ [c]) (a @ c # t)"
  proof
    assume "suffix u a"
    then obtain zs where "a = zs @ u" by (auto simp: suffix_def)
    then have "a @ c # t = zs @ (u @ [c]) @ t" by simp
    then show ?thesis unfolding sublist_def by blast
  next
    assume "sublist (u @ [c]) t"
    then obtain ps ss where "t = ps @ (u @ [c]) @ ss" by (auto simp: sublist_def)
    then have "a @ c # t = (a @ c # ps) @ (u @ [c]) @ ss" by simp
    then show ?thesis unfolding sublist_def by blast
  qed
qed

lemma sublist_separator:
  assumes "d \<notin> set w"
  shows "sublist w (b @ d # r) \<longleftrightarrow> sublist w b \<or> sublist w r"
proof
  assume "sublist w (b @ d # r)"
  then obtain ps ss where eq: "b @ d # r = ps @ w @ ss"
    by (auto simp: sublist_def)
  then obtain us where "(b = ps @ us \<and> us @ d # r = w @ ss) \<or> (b @ us = ps \<and> d # r = us @ w @ ss)"
    by (auto simp: append_eq_append_conv2)
  then show "sublist w b \<or> sublist w r"
  proof (elim disjE conjE)
    assume a: "b = ps @ us" and b: "us @ d # r = w @ ss"
    from b obtain vs where "(us = w @ vs \<and> vs @ d # r = ss) \<or> (us @ vs = w \<and> d # r = vs @ ss)"
      by (auto simp: append_eq_append_conv2)
    then show ?thesis
    proof (elim disjE conjE)
      assume "us = w @ vs"
      with a have "b = ps @ w @ vs" by simp
      then show ?thesis unfolding sublist_def by blast
    next
      assume c: "us @ vs = w" and e: "d # r = vs @ ss"
      show ?thesis
      proof (cases vs)
        case Nil
        with c a have "b = ps @ w @ []" by simp
        then show ?thesis unfolding sublist_def by blast
      next
        case (Cons x vs')
        with e have "d \<in> set vs" by simp
        with c assms show ?thesis by auto
      qed
    qed
  next
    assume b: "d # r = us @ w @ ss"
    show ?thesis
    proof (cases us)
      case Nil
      with b assms have "w = []" by (cases w) auto
      then show ?thesis by simp
    next
      case (Cons x us')
      with b have "r = us' @ w @ ss" by simp
      then show ?thesis unfolding sublist_def by blast
    qed
  qed
next
  assume "sublist w b \<or> sublist w r"
  then show "sublist w (b @ d # r)"
  proof
    assume "sublist w b"
    then obtain ps ss where "b = ps @ w @ ss" by (auto simp: sublist_def)
    then have "b @ d # r = ps @ w @ (ss @ d # r)" by simp
    then show ?thesis unfolding sublist_def by blast
  next
    assume "sublist w r"
    then obtain ps ss where "r = ps @ w @ ss" by (auto simp: sublist_def)
    then have "b @ d # r = (b @ d # ps) @ w @ ss" by simp
    then show ?thesis unfolding sublist_def by blast
  qed
qed

lemma sublist_needs_char: "c \<notin> set b \<Longrightarrow> \<not> sublist (u @ [c]) b"
  by (auto simp: sublist_def)

lemma needle_in_toString:
  assumes "CHR ''='' \<notin> set u" and "CHR ''&'' \<notin> set u"
  shows "sublist (u @ ''='') (toString ps) \<longleftrightarrow> (\<exists>(k, v) \<in> set ps. suffix u (urlencode k))"
  unfolding toString_def
proof (induction ps rule: induct_list012)
  case 1
  then show ?case by simp
next
  case (2 x)
  obtain k v where x: "x = (k, v)" by (cases x)
  show ?case
    using sublist_key [of "CHR ''=''" u "urlencode k" "urlencode v"] assms(1)
      sublist_needs_char [of "CHR ''=''" "urlencode v" u]
    by (simp add: x)
next
  case (3 x y zs)
  obtain k v where x: "x = (k, v)" by (cases x)
  let ?rest = "join_amp (map (\<lambda>(k, v). urlencode k @ ''='' @ urlencode v) (y # zs))"
  have "sublist (u @ ''='') (urlencode k @ CHR ''='' # (urlencode v @ CHR ''&'' # ?rest)) \<longleftrightarrow>
      suffix u (urlencode k) \<or> sublist (u @ ''='') (urlencode v @ CHR ''&'' # ?rest)"
    using sublist_key [of "CHR ''=''" u "urlencode k"] assms(1) by simp
  also have "sublist (u @ ''='') (urlencode v @ CHR ''&'' # ?rest) \<longleftrightarrow>
      sublist (u @ ''='') (urlencode v) \<or> sublist (u @ ''='') ?rest"
    using sublist_separator [of "CHR ''&''" "u @ ''=''"] assms(2) by simp
  finally show ?case
    using 3(2) sublist_needs_char [of "CHR ''=''" "urlencode v" u]
    by (simp add: x)
qed

lemma urlencode_names [simp]:
  "urlencode ''grant_type'' = ''grant_type''"
  "urlencode ''client_id'' = ''client_id''"
  "urlencode ''client_secret'' = ''client_secret''"
  "urlencode ''code'' = ''code''"
  "urlencode ''redirect_uri'' = ''redirect_uri''"
  "urlencode ''username'' = ''username''"
  "urlencode ''password'' = ''password''"
  "urlencode ''refresh_token'' = ''refresh_token''"
  "urlencode ''scope'' = ''scope''"
  "urlencode ''authorization_code'' = ''authorization_code''"
  "urlencode ''client_credentials'' = ''client_credentials''"
  by (simp_all add: urlencode_def encode_byte_def unreserved_def)

lemma suffix_scope [simp]:
  "\<not> suffix ''scope'' ''grant_type''"
  "\<not> suffix ''scope'' ''client_id''"
  "\<not> suffix ''scope'' ''client_secret''"
  "\<not> suffix ''scope'' ''code''"
  "\<not> suffix ''scope'' ''redirect_uri''"
  "\<not> suffix ''scope'' ''username''"
  "\<not> suffix ''scope'' ''password''"
  "\<not> suffix ''scope'' ''refresh_token''"
  "suffix ''scope'' ''scope''"
  by (simp_all add: suffix_to_prefix)

lemma request_token_posts:
  "posts (snd (request_token e ps s)) = posts s @ [(''/oauth2/token'', toString ps)]"
  by (auto simp: request_token_def post_token_def handleTokenResponse_def Let_def
      split: prod.splits sum.splits option.splits callback_outcome.splits)

lemma request_token_wire_body [simp]: "wire_body (request_token e ps s) = toString ps"
  by (simp add: wire_body_def request_token_posts)

lemma append_if_fields:
  "map (\<lambda>(k, v). (urlencode k, urlencode v)) (append_if ps ''scope'' sc)
     = map (\<lambda>(k, v). (urlencode k, urlencode v)) ps @ optional_field ''scope'' sc"
  by (cases sc) auto

lemma append_if_keys:
  "(\<exists>(k, v) \<in> set (append_if ps ''scope'' sc). suffix ''scope'' (urlencode k)) \<longleftrightarrow>
     (\<exists>(k, v) \<in> set ps. suffix ''scope'' (urlencode k)) \<or> truthy sc"
  by (cases sc) auto

text \<open>
  C8: each grant operation makes one POST to the token endpoint whose form-encoded body,
  read back, has exactly the fields of that grant, \<open>client_id\<close> and \<open>client_secret\<close>
  among them; \<open>scope\<close> is one of them, and \<open>scope=\<close> a substring of the body, exactly
  when the caller supplied a non-empty scope. With no argument
  \<open>authenticateWithClientCredentials\<close> sends a body without the substring \<open>scope=\<close>.
\<close>

theorem grant_wire_bodies:
  "posts (snd (exchangeAuthorizationCode e code_request s))
     = posts s @ [(''/oauth2/token'', wire_body (exchangeAuthorizationCode e code_request s))] \<and>
   fields (wire_body (exchangeAuthorizationCode e code_request s))
     = [(''grant_type'', ''authorization_code''),
        (''code'', urlencode (request_code code_request)),
        (''redirect_uri'', urlencode (request_redirectUri code_request)),
        (''client_id'', urlencode (clientId (config e))),
        (''client_secret'', urlencode (clientSecret (config e)))] \<and>
   \<not> sublist ''scope='' (wire_body (exchangeAuthorizationCode e code_request s)) \<and>
   posts (snd (authenticateWithPassword e password_request s))
     = posts s @ [(''/oauth2/token'', wire_body (authenticateWithPassword e password_request s))] \<and>
   fields (wire_body (authenticateWithPassword e password_request s))
     = [(''grant_type'', ''password''),
        (''username'', urlencode (username password_request)),
        (''password'', urlencode (password password_request)),
        (''client_id'', urlencode (clientId (config e))),
        (''client_secret'', urlencode (clientSecret (config e)))]
       @ optional_field ''scope'' (request_scope password_request) \<and>
   (sublist ''scope='' (wire_body (authenticateWithPassword e password_request s))
      \<longleftrightarrow> truthy (request_scope password_request)) \<and>
   posts (snd (authenticateWithClientCredentials e sc s))
     = posts s @ [(''/oauth2/token'', wire_body (authenticateWithClientCredentials e sc s))] \<and>
   fields (wire_body (authenticateWithClientCredentials e sc s))
     = [(''grant_type'', ''client_credentials''),
        (''client_id'', urlencode (clientId (config e))),
        (''client_secret'', urlencode (clientSecret (config e)))]
       @ optional_field ''scope'' sc \<and>
   (sublist ''scope='' (wire_body (authenticateWithClientCredentials e sc s)) \<longleftrightarrow> truthy sc) \<and>
   \<not> sublist ''scope='' (wire_body (authenticateWithClientCredentials e None s)) \<and>
   (refreshToken s = Some t \<and> t \<noteq> [] \<longrightarrow>
      posts (snd (refreshAccessToken e s))
        = posts s @ [(''/oauth2/token'', wire_body (refreshAccessToken e s))] \<and>
      fields (wire_body (refreshAccessToken e s))
        = [(''grant_type'', ''refresh_token''),
           (''refresh_token'', urlencode t),
           (''client_id'', urlencode (clientId (config e))),
           (''client_secret'', urlencode (clientSecret (config e)))] \<and>
      \<not> sublist ''scope='' (wire_body (refreshAccessToken e s)))"
proof -
  have scope: "\<And>ps. sublist ''scope='' (toString ps) \<longleftrightarrow> (\<exists>(k, v) \<in> set ps. suffix ''scope'' (urlencode k))"
    using needle_in_toString [of "''scope''"] by simp
  have x: "posts (snd (exchangeAuthorizationCode e code_request s))
     = posts s @ [(''/oauth2/token'', wire_body (exchangeAuthorizationCode e code_request s))] \<and>
   fields (wire_body (exchangeAuthorizationCode e code_request s))
     = [(''grant_type'', ''authorization_code''),
        (''code'', urlencode (request_code code_request)),
        (''redirect_uri'', urlencode (request_redirectUri code_request)),
        (''client_id'', urlencode (clientId (config e))),
        (''client_secret'', urlencode (clientSecret (config e)))] \<and>
   \<not> sublist ''scope='' (wire_body (exchangeAuthorizationCode e code_request s))"
    by (simp add: exchangeAuthorizationCode_def request_token_posts fields_toString scope)
  have p: "posts (snd (authenticateWithPassword e password_request s))
     = posts s @ [(''/oauth2/token'', wire_body (authenticateWithPassword e password_request s))] \<and>
   fields (wire_body (authenticateWithPassword e password_request s))
     = [(''grant_type'', ''password''),
        (''username'', urlencode (username password_request)),
        (''password'', urlencode (password password_request)),
        (''client_id'', urlencode (clientId (config e))),
        (''client_secret'', urlencode (clientSecret (config e)))]
       @ optional_field ''scope'' (request_scope password_request) \<and>
   (sublist ''scope='' (wire_body (authenticateWithPassword e password_request s))
      \<longleftrightarrow> truthy (request_scope password_request))"
    by (simp add: authenticateWithPassword_def request_token_posts fields_toString scope
        append_if_fields append_if_keys del: append_if.simps)
  have c: "\<And>sc. posts (snd (authenticateWithClientCredentials e sc s))
     = posts s @ [(''/oauth2/token'', wire_body (authenticateWithClientCredentials e sc s))] \<and>
   fields (wire_body (authenticateWithClientCredentials e sc s))
     = [(''grant_type'', ''client_credentials''),
        (''client_id'', urlencode (clientId (config e))),
        (''client_secret'', urlencode (clientSecret (config e)))]
       @ optional_field ''scope'' sc \<and>
   (sublist ''scope='' (wire_body (authenticateWithClientCredentials e sc s)) \<longleftrightarrow> truthy sc)"
    by (simp add: authenticateWithClientCredentials_def request_token_posts fields_toString scope
        append_if_fields append_if_keys del: append_if.simps)
  have r: "refreshToken s = Some t \<and> t \<noteq> [] \<longrightarrow>
      posts (snd (refreshAccessToken e s))
        = posts s @ [(''/oauth2/token'', wire_body (refreshAccessToken e s))] \<and>
      fields (wire_body (refreshAccessToken e s))
        = [(''grant_type'', ''refresh_token''),
           (''refresh_token'', urlencode t),
           (''client_id'', urlencode (clientId (config e))),
           (''client_secret'', urlencode (clientSecret (config e)))] \<and>
      \<not> sublist ''scope='' (wire_body (refreshAccessToken e s))"
    by (simp add: refreshAccessToken_def request_token_posts fields_toString scope)
  from x p c [of sc] c [of None] r show ?thesis by simp
qed

theorem grant_wire_bodies_witness:
  "wire_body (authenticateWithClientCredentials issuing None (demo_client None None None))
     = ''grant_type=client_credentials&client_id=cid&client_secret=secret'' \<and>
   \<not> sublist ''scope='' (wire_body (authenticateWithClientCredentials issuing None (demo_client None None None))) \<and>
   sublist ''scope='' (wire_body (authenticateWithClientCredentials issuing (Some ''read_courses'')
      (demo_client None None None))) \<and>
   fields (wire_body (authenticateWithPassword issuing
      \<lparr>username = ''test@example.com'', password = ''p w'', request_scope = Some ''''\<rparr>
      (demo_client None None None)))
     = [(''grant_type'', ''password''), (''username'', ''test%40example.com''), (''password'', ''p+w''),
        (''client_id'', ''cid''), (''client_secret'', ''secret'')] \<and>
   fields (wire_body (refreshAccessToken issuing (demo_client None (Some ''ref'') None)))
     = [(''grant_type'', ''refresh_token''), (''refresh_token'', ''ref''),
        (''client_id'', ''cid''), (''client_secret'', ''secret'')]"
proof -
  have enc: "urlencode ''cid'' = ''cid''" "urlencode ''secret'' = ''secret''" "urlencode ''ref'' = ''ref''"
    "urlencode ''test@example.com'' = ''test%40example.com''" "urlencode ''p w'' = ''p+w''"
    by (simp_all add: urlencode_def encode_byte_def unreserved_def hex_digit_def)
  have cfg: "clientId (config issuing) = ''cid''" "clientSecret (config issuing) = ''secret''"
    by (simp_all add: issuing_def demo_servers_def demo_config_def)
  have body: "wire_body (authenticateWithClientCredentials issuing None (demo_client None None None))
     = ''grant_type=client_credentials&client_id=cid&client_secret=secret''"
    by (simp add: authenticateWithClientCredentials_def toString_def enc cfg)
  from grant_wire_bodies [where e = issuing and s = "demo_client None None None"
      and sc = "Some ''read_courses''"
      and password_request = "\<lparr>username = ''test@example.com'', password = ''p w'', request_scope = Some ''''\<rparr>"]
    grant_wire_bodies [where e = issuing and s = "demo_client None (Some ''ref'') None" and t = "''ref''"]
    body
  show ?thesis
    by (simp add: enc cfg demo_client_def)
qed

section \<open>LearnWorldsClient: error normalization\<close>

text \<open>
  C2, as stated, at a 404 response whose body carries a message: the error has the
  listed default, not the message of the server.
\<close>

theorem handleError_message_counterexample:
  "message (handleError (status_error 404 (Some ''Course 42 is archived''))) = ''Resource not found'' \<and>
   claimed_message 404 (Some ''Course 42 is archived'') = ''Course 42 is archived''"
  by (simp add: handleError_def status_error_def claimed_message_def or_else_def)

text \<open>
  C2, amended: when a response was received, the error carries the code of the table
  for its status; for 401, 403, 404, 422 and 429 its message is the listed default
  whatever the body says; for any other status it is the message of the body if that
  is non-empty, else the message of the transport error if that is non-empty, else
  \<open>API Error\<close>.
\<close>

theorem handleError_with_response:
  assumes "response error = Some resp"
  shows "code (handleError error) = status_code (response_status resp) \<and>
         status (handleError error) = Some (response_status resp) \<and>
         details (handleError error) = map_option Body (response_data resp) \<and>
         name (handleError error) = ''LearnWorldsError'' \<and>
         message (handleError error) =
           (if response_status resp \<in> {401, 403, 404, 422, 429} then listed_message (response_status resp)
            else case server_message resp of
                   Some m \<Rightarrow> if m \<noteq> [] then m
                             else if error_message error \<noteq> [] then error_message error else ''API Error''
                 | None \<Rightarrow> if error_message error \<noteq> [] then error_message error else ''API Error'')"
  using assms
  by (auto simp: handleError_def status_code_def listed_message_def server_message_def or_else_def Let_def
      split: option.splits)

theorem handleError_with_response_witness:
  "code (handleError (status_error 404 (Some ''Course 42 is archived''))) = ''NOT_FOUND'' \<and>
   message (handleError (status_error 404 (Some ''Course 42 is archived''))) = ''Resource not found'' \<and>
   code (handleError (status_error 500 (Some ''Database down''))) = ''API_ERROR'' \<and>
   message (handleError (status_error 500 (Some ''Database down''))) = ''Database down'' \<and>
   message (handleError (status_error 500 None)) = ''Request failed''"
  using handleError_with_response [of "status_error 404 (Some ''Course 42 is archived'')"]
    handleError_with_response [of "status_error 500 (Some ''Database down'')"]
    handleError_with_response [of "status_error 500 None"]
  by (simp add: status_error_def status_code_def listed_message_def server_message_def)

section \<open>LearnWorldsClient: the request pipeline\<close>

lemma request_interceptor_effect:
  assumes "request_interceptor e cfg c = (cfg1, c1)"
  shows "sent c1 = sent c"
    and "retry cfg1 = retry cfg"
    and "fst (getAccessToken e (oauth c)) = Inr token \<Longrightarrow> cfg1 = cfg\<lparr>Authorization := Some (bearer token)\<rparr>"
    and "fst (getAccessToken e (oauth c)) = Inl f \<Longrightarrow> cfg1 = cfg"
    and "oauth c1 = snd (getAccessToken e (oauth c))"
  using assms
  by (auto simp: request_interceptor_def split: prod.splits sum.splits)

lemma dispatch_effect:
  assumes "dispatch e cfg c = (answer, c')"
  shows "sent c' = sent c @ [cfg]"
    and "answer = snd (api_endpoint e (length (sent c)) cfg)"
    and "accessToken (oauth c') = accessToken (oauth c)"
    and "refreshToken (oauth c') = refreshToken (oauth c)"
    and "tokenExpiresAt (oauth c') = tokenExpiresAt (oauth c)"
    and "posts (oauth c') = posts (oauth c)"
  using assms
  by (auto simp: dispatch_def split: prod.splits)

lemma refresh_for_retry_effect:
  assumes "refresh_for_retry e cfg c = (got, c')"
  shows "sent c' = sent c"
    and "got = Some cfg2 \<Longrightarrow> retry cfg2 = retry cfg"
    and "fst (refreshAccessToken e (oauth c)) = Inl f \<Longrightarrow> got = None"
  using assms
  by (auto simp: refresh_for_retry_def split: prod.splits sum.splits)

text \<open>A request already marked is sent once.\<close>

lemma http_marked:
  assumes "retry cfg"
  shows "http e cfg c =
     (case request_interceptor e cfg c of
        (cfg1, c1) \<Rightarrow>
          (case dispatch e cfg1 c1 of
             (Inr resp, c2) \<Rightarrow> (Inr resp, c2)
           | (Inl error, c2) \<Rightarrow> (Inl (handleError error), c2)))"
proof -
  obtain cfg1 c1 where ri: "request_interceptor e cfg c = (cfg1, c1)"
    by (cases "request_interceptor e cfg c")
  obtain answer c2 where d: "dispatch e cfg1 c1 = (answer, c2)"
    by (cases "dispatch e cfg1 c1")
  have m: "retry cfg1" using assms request_interceptor_effect(2) [OF ri] by simp
  show ?thesis
  proof (cases answer)
    case (Inl error)
    then show ?thesis by (subst http.simps) (simp add: ri d m)
  next
    case (Inr resp)
    then show ?thesis by (subst http.simps) (simp add: ri d)
  qed
qed

lemma http_marked_sent:
  assumes "retry cfg" and "http e cfg c = (out, c')"
  shows "\<exists>resent. sent c' = sent c @ [resent] \<and> retry resent \<and>
           out = (case snd (api_endpoint e (length (sent c)) resent) of
                    Inl err \<Rightarrow> Inl (handleError err) | Inr resp \<Rightarrow> Inr resp)"
proof -
  obtain cfg1 c1 where ri: "request_interceptor e cfg c = (cfg1, c1)"
    by (cases "request_interceptor e cfg c")
  obtain answer c2 where d: "dispatch e cfg1 c1 = (answer, c2)"
    by (cases "dispatch e cfg1 c1")
  have a: "snd (api_endpoint e (length (sent c)) cfg1) = answer"
    using request_interceptor_effect(1) [OF ri] dispatch_effect(2) [OF d] by simp
  have "http e cfg c = (case answer of Inl err \<Rightarrow> Inl (handleError err) | Inr resp \<Rightarrow> Inr resp, c2)"
    by (cases answer) (simp_all add: http_marked [OF assms(1)] ri d)
  with assms(2) have "c' = c2"
    and "out = (case answer of Inl err \<Rightarrow> Inl (handleError err) | Inr resp \<Rightarrow> Inr resp)"
    by simp_all
  moreover have "sent c2 = sent c @ [cfg1]" "retry cfg1"
    using request_interceptor_effect(1,2) [OF ri] dispatch_effect(1) [OF d] assms(1) by simp_all
  ultimately have "sent c' = sent c @ [cfg1] \<and> retry cfg1 \<and>
           out = (case snd (api_endpoint e (length (sent c)) cfg1) of
                    Inl err \<Rightarrow> Inl (handleError err) | Inr resp \<Rightarrow> Inr resp)"
    by (simp add: a)
  then show ?thesis ..
qed

lemma http_unmarked_sent:
  assumes "\<not> retry cfg" and "http e cfg c = (out, c')"
    and "request_interceptor e cfg c = (first, c1)"
    and "dispatch e first c1 = (answer, c2)"
  shows "(sent c' = sent c @ [first] \<and>
          out = (case answer of Inl err \<Rightarrow> Inl (handleError err) | Inr resp \<Rightarrow> Inr resp)) \<or>
         (\<exists>resent err1. sent c' = sent c @ [first, resent] \<and> retry resent \<and>
            answer = Inl err1 \<and> is_401 err1 \<and> truthy (refreshToken (oauth c2)) \<and>
            fst (refresh_for_retry e (first\<lparr>retry := True\<rparr>) c2) \<noteq> None \<and>
            out = (case snd (api_endpoint e (Suc (length (sent c))) resent) of
                     Inl err \<Rightarrow> Inl (handleError err) | Inr resp \<Rightarrow> Inr resp))"
proof (cases answer)
  case (Inr resp)
  then have "http e cfg c = (Inr resp, c2)"
    by (subst http.simps) (simp add: assms(3,4))
  with assms(2) Inr request_interceptor_effect(1) [OF assms(3)] dispatch_effect(1) [OF assms(4)]
  show ?thesis by simp
next
  case (Inl err1)
  have s2: "sent c2 = sent c @ [first]"
    using request_interceptor_effect(1) [OF assms(3)] dispatch_effect(1) [OF assms(4)] by simp
  show ?thesis
  proof (cases "is_401 err1 \<and> \<not> retry first \<and> truthy (refreshToken (oauth c2))")
    case False
    have "http e cfg c = (Inl (handleError err1), c2)"
      by (subst http.simps) (simp add: assms(3,4) Inl False)
    with assms(2) Inl s2 show ?thesis by simp
  next
    case True
    obtain got c3 where r: "refresh_for_retry e (first\<lparr>retry := True\<rparr>) c2 = (got, c3)"
      by (cases "refresh_for_retry e (first\<lparr>retry := True\<rparr>) c2")
    have s3: "sent c3 = sent c @ [first]"
      using refresh_for_retry_effect(1) [OF r] s2 by simp
    show ?thesis
    proof (cases got)
      case None
      then have "http e cfg c = (Inl (handleError err1), c3)"
        by (subst http.simps) (simp add: assms(3,4) Inl r True)
      with assms(2) Inl s3 show ?thesis by simp
    next
      case (Some originalRequest)
      then have h: "http e cfg c = http e originalRequest c3"
        by (subst http.simps) (simp add: assms(3,4) Inl r True)
      have m: "retry originalRequest"
        using refresh_for_retry_effect(2) [OF r Some] by simp
      from http_marked_sent [OF m, of e c3 out c'] h assms(2) s3
      obtain resent where "sent c' = sent c @ [first, resent]" "retry resent"
        "out = (case snd (api_endpoint e (Suc (length (sent c))) resent) of
                     Inl err \<Rightarrow> Inl (handleError err) | Inr resp \<Rightarrow> Inr resp)"
        by auto
      with Inl True r Some show ?thesis by auto
    qed
  qed
qed

lemma makeRequest_http:
  assumes "makeRequest e m u d p c = (out, c')"
  shows "c' = snd (http e (new_request m u d p) c)"
    and "fst (http e (new_request m u d p) c) = Inl err \<Longrightarrow> out = Inl err"
    and "out = Inl err \<Longrightarrow> fst (http e (new_request m u d p) c) = Inr resp \<Longrightarrow> \<not> success (response_data resp)"
    and "out = Inr x \<Longrightarrow> \<exists>resp. fst (http e (new_request m u d p) c) = Inr resp \<and>
           success (response_data resp) \<and> x = api_data (response_data resp)"
  using assms
  by (auto simp: makeRequest_def split: prod.splits sum.splits if_splits)

text \<open>
  C1: a request made through the gateway goes out once or twice. It goes out twice only
  after a first answer with status 401, the second time marked as retried; if the
  second answer is a failure too, whatever its status, that failure is what the caller
  receives.
\<close>

theorem at_most_one_retry:
  assumes "makeRequest e m u d p c = (out, c')"
  shows "\<exists>first. \<not> retry first \<and>
           (sent c' = sent c @ [first] \<or>
            (\<exists>resent err1. sent c' = sent c @ [first, resent] \<and> retry resent \<and>
               snd (api_endpoint e (length (sent c)) first) = Inl err1 \<and> is_401 err1 \<and>
               (\<forall>err. snd (api_endpoint e (Suc (length (sent c))) resent) = Inl err \<longrightarrow>
                      out = Inl (handleError err))))"
proof -
  let ?cfg = "new_request m u d p"
  obtain first c1 where ri: "request_interceptor e ?cfg c = (first, c1)"
    by (cases "request_interceptor e ?cfg c")
  obtain answer c2 where d: "dispatch e first c1 = (answer, c2)"
    by (cases "dispatch e first c1")
  obtain out1 where h: "http e ?cfg c = (out1, c')"
    using makeRequest_http(1) [OF assms] by (cases "http e ?cfg c") simp
  have nr: "\<not> retry first"
    using request_interceptor_effect(2) [OF ri] by simp
  have a: "answer = snd (api_endpoint e (length (sent c)) first)"
    using dispatch_effect(2) [OF d] request_interceptor_effect(1) [OF ri] by simp
  from http_unmarked_sent [OF _ h ri d]
  consider "sent c' = sent c @ [first]"
    | resent err1 where "sent c' = sent c @ [first, resent]" "retry resent"
        "answer = Inl err1" "is_401 err1"
        "out1 = (case snd (api_endpoint e (Suc (length (sent c))) resent) of
                     Inl err \<Rightarrow> Inl (handleError err) | Inr resp \<Rightarrow> Inr resp)"
    by auto
  then show ?thesis
  proof cases
    case 1
    with nr show ?thesis by blast
  next
    case 2
    have "\<forall>err. snd (api_endpoint e (Suc (length (sent c))) resent) = Inl err \<longrightarrow>
                      out = Inl (handleError err)"
    proof (intro allI impI)
      fix err assume "snd (api_endpoint e (Suc (length (sent c))) resent) = Inl err"
      with 2(5) have "out1 = Inl (handleError err)" by simp
      with h makeRequest_http(2) [OF assms, of "handleError err"]
      show "out = Inl (handleError err)" by simp
    qed
    with 2(1-4) a nr show ?thesis by metis
  qed
qed

lemmas run_defs =
  makeRequest_def request_interceptor_def dispatch_def refresh_for_retry_def
  getAccessToken_def refreshAccessToken_def request_token_def post_token_def handleTokenResponse_def
  demo_servers_def demo_gateway_def demo_client_def demo_config_def token_reply_def
  status_error_def envelope_def is_401_def bearer_def bufferTime_def network_error_def

theorem at_most_one_retry_witness:
  "length (sent (snd (makeRequest unauthorized_twice GET ''/courses'' None None
             (demo_gateway (Some ''old'') (Some ''ref'') None)))) = 2 \<and>
   fst (makeRequest unauthorized_twice GET ''/courses'' None None
             (demo_gateway (Some ''old'') (Some ''ref'') None))
     = Inl (handleError (status_error 401 None))"
proof -
  let ?c = "demo_gateway (Some ''old'') (Some ''ref'') None"
  let ?run = "makeRequest unauthorized_twice GET ''/courses'' None None ?c"
  have two: "length (sent (snd ?run)) = 2"
    by (simp add: run_defs http.simps unauthorized_twice_def)
  have answers: "\<And>n cfg. snd (api_endpoint unauthorized_twice n cfg) = Inl (status_error 401 None)"
    by (simp add: unauthorized_twice_def demo_servers_def)
  from at_most_one_retry [of unauthorized_twice GET "''/courses''" None None ?c "fst ?run" "snd ?run"]
    two answers
  have "fst ?run = Inl (handleError (status_error 401 None))"
    by (auto simp: demo_gateway_def)
  with two show ?thesis by simp
qed

text \<open>
  C6: when the answer is a 401 and the refresh fails, the caller receives the 401
  error, normalized, and the request is not sent again.
\<close>

theorem refresh_failure_surfaces_original_error:
  assumes "request_interceptor e (new_request m u d p) c = (first, c1)"
    and "dispatch e first c1 = (Inl error, c2)"
    and "is_401 error"
    and "fst (refreshAccessToken e (oauth c2)) = Inl f"
  shows "fst (makeRequest e m u d p c) = Inl (handleError error) \<and>
         code (handleError error) = ''UNAUTHORIZED'' \<and>
         sent (snd (makeRequest e m u d p c)) = sent c @ [first]"
proof -
  let ?cfg = "new_request m u d p"
  obtain out c' where r: "makeRequest e m u d p c = (out, c')"
    by (cases "makeRequest e m u d p c")
  obtain out1 where h: "http e ?cfg c = (out1, c')"
    using makeRequest_http(1) [OF r] by (cases "http e ?cfg c") simp
  have "fst (refresh_for_retry e (first\<lparr>retry := True\<rparr>) c2) = None"
    using refresh_for_retry_effect(3) [OF _ assms(4), of "first\<lparr>retry := True\<rparr>"]
    by (cases "refresh_for_retry e (first\<lparr>retry := True\<rparr>) c2") simp
  with http_unmarked_sent [OF _ h assms(1,2)]
  have "sent c' = sent c @ [first]" "out1 = Inl (handleError error)"
    by auto
  moreover have "out = Inl (handleError error)"
    using makeRequest_http(2) [OF r, of "handleError error"] h \<open>out1 = Inl (handleError error)\<close>
    by simp
  moreover have "code (handleError error) = ''UNAUTHORIZED''"
    using assms(3) by (auto simp: is_401_def handleError_def Let_def split: option.splits)
  ultimately show ?thesis by (simp add: r)
qed

theorem refresh_failure_surfaces_original_error_witness:
  "fst (makeRequest refresh_down GET ''/courses'' None None (demo_gateway (Some ''old'') (Some ''ref'') None))
     = Inl (handleError (status_error 401 (Some ''expired''))) \<and>
   length (sent (snd (makeRequest refresh_down GET ''/courses'' None None
      (demo_gateway (Some ''old'') (Some ''ref'') None)))) = 1"
proof -
  let ?c = "demo_gateway (Some ''old'') (Some ''ref'') None"
  let ?first = "(new_request GET ''/courses'' None None)\<lparr>Authorization := Some ''Bearer old''\<rparr>"
  let ?c2 = "?c\<lparr>oauth := (oauth ?c)\<lparr>now := 1000100\<rparr>, sent := [?first]\<rparr>"
  have 1: "request_interceptor refresh_down (new_request GET ''/courses'' None None) ?c = (?first, ?c)"
    by (simp add: run_defs refresh_down_def)
  have 2: "dispatch refresh_down ?first ?c = (Inl (status_error 401 (Some ''expired'')), ?c2)"
    by (simp add: run_defs refresh_down_def)
  have 3: "is_401 (status_error 401 (Some ''expired''))"
    by (simp add: is_401_def status_error_def)
  have 4: "fst (refreshAccessToken refresh_down (oauth ?c2)) = Inl (Rejected network_error)"
    by (simp add: run_defs refresh_down_def)
  from refresh_failure_surfaces_original_error [OF 1 2 3 4]
  show ?thesis by (simp add: demo_gateway_def)
qed

text \<open>
  C7, as stated, at an envelope whose message is the empty string: the message is
  present, yet the error carries the fallback.
\<close>

theorem makeRequest_empty_message_counterexample:
  "api_message (response_data (envelope False ''null'' (Some ''''))) = Some '''' \<and>
   fst (makeRequest (answering (envelope False ''null'' (Some ''''))) GET ''/courses'' None None
          (demo_gateway (Some ''tok'') None None))
     = Inl \<lparr>name = ''Error'', status = None, code = ''API_ERROR'',
            message = ''API request failed'', details = Some (Errors [''E1''])\<rparr>"
  by (simp add: run_defs http.simps answering_def or_else_def)

text \<open>
  C7, amended: when the exchange succeeds and the envelope has \<open>success\<close> false, the
  request fails with code \<open>API_ERROR\<close>, the errors of the envelope as details, and as
  message the message of the envelope if it has a non-empty one, \<open>API request failed\<close>
  otherwise, whatever the HTTP status; when \<open>success\<close> is true the data of the envelope
  is returned.
\<close>

theorem makeRequest_envelope:
  assumes "http e (new_request m u d p) c = (Inr resp, c')"
  shows "(\<not> success (response_data resp) \<longrightarrow>
            makeRequest e m u d p c =
              (Inl \<lparr>name = ''Error'', status = None, code = ''API_ERROR'',
                     message = (case api_message (response_data resp) of
                                  None \<Rightarrow> ''API request failed''
                                | Some msg \<Rightarrow> if msg = [] then ''API request failed'' else msg),
                     details = map_option Errors (errors (response_data resp))\<rparr>, c')) \<and>
         (success (response_data resp) \<longrightarrow>
            makeRequest e m u d p c = (Inr (api_data (response_data resp)), c'))"
  using assms
  by (auto simp: makeRequest_def or_else_def split: option.splits)

theorem makeRequest_envelope_witness:
  "fst (makeRequest (answering (envelope False ''null'' (Some ''Quota exceeded''))) GET ''/courses'' None None
          (demo_gateway (Some ''tok'') None None))
     = Inl \<lparr>name = ''Error'', status = None, code = ''API_ERROR'',
            message = ''Quota exceeded'', details = Some (Errors [''E1''])\<rparr> \<and>
   fst (makeRequest (answering (envelope True ''[1,2]'' None)) GET ''/courses'' None None
          (demo_gateway (Some ''tok'') None None)) = Inr ''[1,2]''"
proof -
  let ?c = "demo_gateway (Some ''tok'') None None"
  have 1: "\<And>resp. \<exists>c'. http (answering resp) (new_request GET ''/courses'' None None) ?c = (Inr resp, c')"
    by (simp add: run_defs http.simps answering_def)
  obtain c1 where c1: "http (answering (envelope False ''null'' (Some ''Quota exceeded'')))
      (new_request GET ''/courses'' None None) ?c = (Inr (envelope False ''null'' (Some ''Quota exceeded'')), c1)"
    using 1 by blast
  obtain c2 where c2: "http (answering (envelope True ''[1,2]'' None))
      (new_request GET ''/courses'' None None) ?c = (Inr (envelope True ''[1,2]'' None), c2)"
    using 1 by blast
  from makeRequest_envelope [OF c1] makeRequest_envelope [OF c2]
  show ?thesis by (simp add: envelope_def)
qed












end
